theory Spec2Isabelle
  imports Complex_Main
begin

section \<open>The kiosk work-session tracker (src/app/kiosk2/KioskClient.tsx)\<close>

text \<open>
  A shallow embedding of the React component \<open>KioskClient\<close>: its session state machine,
  the production-rate computation, the keyboard-emulated code entry and the camera
  barcode scanner. Each handler of the component is a function from the component's
  state to its new state; \<open>Date.now()\<close> is a parameter of the handlers that read it.

  Conventions of the model:
  \<^item> timestamps (\<open>Date.now()\<close>, \<open>startTs\<close>, \<open>pauseTs\<close>) are integers (milliseconds),
    as \<open>Date.now()\<close> returns them; \<open>produced\<close> is a natural number (it starts at 0
    and is only ever incremented); both are exact in a JavaScript number below \<open>2^53\<close>;
  \<^item> \<open>pph\<close> is computed over the reals, with the non-finite results of a JavaScript
    division written out (\<open>js_div\<close>), and without the rounding of doubles (see there);
  \<^item> a string is the list of its UTF-16 code units, as JavaScript has it;
  \<^item> the browser's side of what the component drives is part of the state: the camera
    streams ever returned by \<open>getUserMedia\<close> (\<open>streams\<close>, one flag per stream: are
    its tracks live), the animation frames ever requested (\<open>frames\<close>, one flag per
    handle: is the callback still scheduled), and the number of calls of
    \<open>getUserMedia\<close>, \<open>video.play()\<close> and \<open>detector.detect\<close> that are not answered
    yet: the code after such an \<open>await\<close> runs when the answer comes, whatever has
    happened in between.
\<close>

subsection \<open>Data\<close>

type_synonym jsstring = "nat list"

text \<open>A string literal of ASCII characters.\<close>

definition ascii :: "string \<Rightarrow> jsstring" where
  "ascii s = map of_char s"

datatype DowntimeReason = Break | Fault

text \<open>The fields \<open>id\<close> and \<open>size\<close> of the source's \<open>WorkOrder\<close> are named
  \<open>id_wo\<close> and \<open>size_wo\<close> here.\<close>

record WorkOrder =
  id_wo :: jsstring
  wo :: jsstring
  model :: jsstring
  operation :: jsstring
  color :: jsstring
  size_wo :: jsstring
  target_pph :: nat

text \<open>\<open>SessionState\<close>: the union discriminated by \<open>phase\<close>. The arguments are, in
  order, \<open>operatorId\<close>, \<open>operatorName\<close>, \<open>wo\<close>, \<open>startTs\<close>, \<open>produced\<close>, \<open>reason\<close>,
  \<open>pauseTs\<close>.\<close>

datatype SessionState =
    Idle
  | Authenticated jsstring jsstring
  | Running jsstring jsstring WorkOrder int nat
  | Paused jsstring jsstring WorkOrder int nat DowntimeReason int

text \<open>The object \<open>{ id, name }\<close> that \<open>demoLookupOperator\<close> returns.\<close>

record Operator =
  id_op :: jsstring
  name_op :: jsstring

text \<open>A JavaScript number as far as the rate needs it: a real, or one of the
  non-finite values a division can produce.\<close>

datatype jsnum = Number real | PosInf | NegInf | NaN

record Info =
  elapsed :: int
  pph :: jsnum

text \<open>The values interpolated into the text of the \<open>alert\<close> of \<open>finishWork\<close>:
  \<open>opName\<close>, \<open>wo.wo\<close>, \<open>produced\<close>, \<open>formatHMS(elapsedMs)\<close> and
  \<open>Math.round(runningInfo.pph)\<close>.\<close>

record Summary =
  sum_operator :: jsstring
  sum_wo :: jsstring
  sum_produced :: nat
  sum_sure :: jsstring
  sum_pph :: jsnum

text \<open>The component: its \<open>useState\<close> cells (\<open>rfidBuffer\<close>, \<open>selectedWO\<close>, \<open>state\<close>,
  \<open>tick\<close>, \<open>scanOpen\<close>, \<open>scanError\<close>), its refs (\<open>streamRef\<close>, \<open>rafRef\<close>), the value
  memoised by \<open>useMemo\<close> at the last render whose dependencies \<open>[state, tick]\<close> had
  changed (\<open>runningInfoMemo\<close>), and the browser's side: the streams, the frames and
  the calls that are not answered yet.
  \<open>videoRef.current\<close> is not a field: the \<open>video\<close> element is mounted exactly while
  the scanner modal is rendered, that is while \<open>scanOpen\<close> holds.\<close>

record KioskClient =
  rfidBuffer :: jsstring
  selectedWO :: "WorkOrder option"
  state :: SessionState
  tick :: nat
  scanOpen :: bool
  scanError :: "jsstring option"
  streamRef :: "nat option"
  rafRef :: "nat option"
  runningInfoMemo :: Info
  streams :: "bool list"
  frames :: "bool list"
  pendingGetUserMedia :: nat
  pendingPlay :: nat
  pendingDetect :: nat

subsection \<open>Strings and formatting\<close>

text \<open>The code units that \<open>String.prototype.trim\<close> strips: the white space of
  ECMAScript (TAB, VT, FF, SP, NBSP, the byte order mark U+FEFF and the other space
  separators of Unicode) and its line terminators (LF, CR, U+2028, U+2029). All of
  them are single code units.\<close>

definition is_ws :: "nat \<Rightarrow> bool" where
  "is_ws u =
     (u \<in> set [0x09, 0x0A, 0x0B, 0x0C, 0x0D, 0x20, 0xA0, 0x1680, 0x2000, 0x2001, 0x2002,
        0x2003, 0x2004, 0x2005, 0x2006, 0x2007, 0x2008, 0x2009, 0x200A, 0x2028, 0x2029,
        0x202F, 0x205F, 0x3000, 0xFEFF])"

definition trim :: "jsstring \<Rightarrow> jsstring" where
  "trim s = rev (dropWhile is_ws (rev (dropWhile is_ws s)))"

text \<open>\<open>toLowerCase\<close>, which the source uses only to compare the result with
  \<open>'ahmet'\<close> and with \<open>'lider'\<close>. The ASCII capitals go to their small letters; of
  the other code units, the two whose lower case has an ASCII letter are written out
  (the Kelvin sign U+212A gives \<open>k\<close>, the dotted capital I U+0130 gives \<open>i\<close> followed
  by U+0307). Every other code unit is left as it is: where JavaScript changes one,
  the result has a code unit outside ASCII as well, so that both comparisons come out
  the same.\<close>

definition lowerUnit :: "nat \<Rightarrow> jsstring" where
  "lowerUnit u =
     (if 0x41 \<le> u \<and> u \<le> 0x5A then [u + 0x20]
      else if u = 0x130 then [0x69, 0x307]
      else if u = 0x212A then [0x6B]
      else [u])"

definition toLowerCase :: "jsstring \<Rightarrow> jsstring" where
  "toLowerCase s = concat (map lowerUnit s)"

text \<open>\<open>n.toString()\<close> of a non-negative integer: its decimal digits.\<close>

fun toString :: "nat \<Rightarrow> jsstring" where
  "toString n =
     (if n < 10 then [0x30 + n]
      else toString (n div 10) @ [0x30 + n mod 10])"

definition pad2 :: "nat \<Rightarrow> jsstring" where
  "pad2 n = (let s = toString n in replicate (2 - length s) 0x30 @ s)"

text \<open>\<open>const s = Math.max(0, Math.floor(ms / 1000))\<close>; the argument is an integer at
  every call (a difference of timestamps), so the floor of the quotient is \<open>div\<close>.\<close>

definition hmsSeconds :: "int \<Rightarrow> int" where
  "hmsSeconds ms = max 0 (ms div 1000)"

definition formatHMS :: "int \<Rightarrow> jsstring" where
  "formatHMS ms =
     (let s = nat (hmsSeconds ms);
          hh = s div 3600;
          mm = (s mod 3600) div 60;
          ss = s mod 60
      in pad2 hh @ ascii '':'' @ pad2 mm @ ascii '':'' @ pad2 ss)"

subsection \<open>The operator directory and the work orders\<close>

definition demoWorkOrders :: "WorkOrder list" where
  "demoWorkOrders =
     [\<lparr>id_wo = ascii ''1'', wo = ascii ''WO-1001'', model = ascii ''LACOSTE POLO'',
        operation = ascii ''Diki'' @ [0x15F], color = ascii ''Lacivert'',
        size_wo = ascii ''M'', target_pph = 45\<rparr>,
      \<lparr>id_wo = ascii ''2'', wo = ascii ''WO-1002'', model = ascii ''LACOSTE TSHIRT'',
        operation = ascii ''Overlok'', color = ascii ''Beyaz'', size_wo = ascii ''L'',
        target_pph = 60\<rparr>,
      \<lparr>id_wo = ascii ''3'', wo = ascii ''WO-1003'', model = ascii ''LACOSTE SWEAT'',
        operation = ascii ''Re'' @ [0xE7] @ ascii ''me'', color = ascii ''Siyah'',
        size_wo = ascii ''S'', target_pph = 35\<rparr>]"

definition demoLookupOperator :: "jsstring \<Rightarrow> Operator option" where
  "demoLookupOperator rfid =
     (let cleaned = trim rfid in
      if cleaned = [] then None
      else if cleaned = ascii ''000000001'' \<or> toLowerCase cleaned = ascii ''ahmet''
        then Some \<lparr>id_op = ascii ''op-1'', name_op = ascii ''Ahmet''\<rparr>
      else if cleaned = ascii ''000000002'' \<or> toLowerCase cleaned = ascii ''lider''
        then Some \<lparr>id_op = ascii ''op-2'', name_op = ascii ''Lider''\<rparr>
      else Some \<lparr>id_op = ascii ''op-x'',
                 name_op = ascii ''Operat'' @ [0xF6] @ ascii ''r ('' @ cleaned
                             @ ascii '')''\<rparr>)"

subsection \<open>The rate\<close>

text \<open>\<open>x / y\<close> on JavaScript numbers, for finite operands: which of the kinds of
  result it is, and the exact quotient. The code's quotient is the double nearest to
  the exact one, and \<open>produced / (elapsed / 3600000)\<close> rounds twice; the difference is
  a few units in the last place, which \<open>Math.round\<close> can turn into a difference of 1
  when the exact rate is at a half (3 pieces in 96 s: exactly 112.5, in doubles just
  below it). The properties below that speak of rounded rates take rates far from a
  half.\<close>

definition js_div :: "real \<Rightarrow> real \<Rightarrow> jsnum" where
  "js_div x y =
     (if y = 0 then (if x = 0 then NaN else if 0 < x then PosInf else NegInf)
      else Number (x / y))"

text \<open>\<open>Math.round\<close>: the nearest integer, a tie going up.\<close>

fun js_round :: "jsnum \<Rightarrow> jsnum" where
  "js_round (Number x) = Number (of_int \<lfloor>x + 1 / 2\<rfloor>)"
| "js_round PosInf = PosInf"
| "js_round NegInf = NegInf"
| "js_round NaN = NaN"

text \<open>The body of the \<open>useMemo\<close> that computes \<open>runningInfo\<close>, as a function of the
  session state and of the \<open>Date.now()\<close> it reads.\<close>

fun runningInfo :: "SessionState \<Rightarrow> int \<Rightarrow> Info" where
  "runningInfo (Running oi on w st n) now =
     (let el = now - st; hours = real_of_int el / 3600000
      in \<lparr>elapsed = el, pph = (if 0 < hours then js_div (real n) hours else Number 0)\<rparr>)"
| "runningInfo (Paused oi on w st n r pt) now =
     (let el = pt - st; hours = real_of_int el / 3600000
      in \<lparr>elapsed = el, pph = (if 0 < hours then js_div (real n) hours else Number 0)\<rparr>)"
| "runningInfo s now = \<lparr>elapsed = 0, pph = Number 0\<rparr>"

text \<open>A render in which the dependencies of the memo changed (after a \<open>setState\<close> or a
  tick) recomputes it with the clock of that render.\<close>

definition render :: "int \<Rightarrow> KioskClient \<Rightarrow> KioskClient" where
  "render now c = c\<lparr>runningInfoMemo := runningInfo (state c) now\<rparr>"

definition onTick :: "KioskClient \<Rightarrow> KioskClient" where
  "onTick c = c\<lparr>tick := tick c + 1\<rparr>"

subsection \<open>The scanner's resources\<close>

definition cancelAnimationFrame :: "nat \<Rightarrow> KioskClient \<Rightarrow> KioskClient" where
  "cancelAnimationFrame f c = c\<lparr>frames := (frames c)[f := False]\<rparr>"

text \<open>\<open>rafRef.current = requestAnimationFrame(loop)\<close>: a fresh handle, scheduled.
  A handle is the position of its flag in \<open>frames\<close>; the browser's handles are never
  0, so that the test \<open>if (rafRef.current)\<close> of \<open>stopScanner\<close> is the test for
  \<open>null\<close>, as \<open>if (streamRef.current)\<close> is.\<close>

definition requestAnimationFrame :: "KioskClient \<Rightarrow> KioskClient" where
  "requestAnimationFrame c =
     c\<lparr>rafRef := Some (length (frames c)), frames := frames c @ [True]\<rparr>"

text \<open>\<open>stream.getTracks().forEach((t) => t.stop())\<close>.\<close>

definition stopTracks :: "nat \<Rightarrow> KioskClient \<Rightarrow> KioskClient" where
  "stopTracks s c = c\<lparr>streams := (streams c)[s := False]\<rparr>"

definition stopScanner :: "KioskClient \<Rightarrow> KioskClient" where
  "stopScanner c =
     (let c1 = (case rafRef c of Some f \<Rightarrow> cancelAnimationFrame f c | None \<Rightarrow> c);
          c2 = c1\<lparr>rafRef := None\<rparr>;
          c3 = (case streamRef c2 of
                  Some s \<Rightarrow> (stopTracks s c2)\<lparr>streamRef := None\<rparr>
                | None \<Rightarrow> c2)
      in c3\<lparr>scanOpen := False\<rparr>)"

text \<open>The number of camera streams whose tracks are live, and of scheduled frames.\<close>

definition openStreams :: "KioskClient \<Rightarrow> nat" where
  "openStreams c = length (filter (\<lambda>b. b) (streams c))"

definition pendingFrames :: "KioskClient \<Rightarrow> nat" where
  "pendingFrames c = length (filter (\<lambda>b. b) (frames c))"

subsection \<open>Code entry\<close>

definition setRfidBuffer :: "jsstring \<Rightarrow> KioskClient \<Rightarrow> KioskClient" where
  "setRfidBuffer v c = c\<lparr>rfidBuffer := v\<rparr>"

definition loginWithCode :: "jsstring \<Rightarrow> KioskClient \<Rightarrow> KioskClient" where
  "loginWithCode code c =
     (let op = demoLookupOperator code;
          c1 = c\<lparr>rfidBuffer := []\<rparr>
      in case op of
           None \<Rightarrow> c1
         | Some p \<Rightarrow> c1\<lparr>state := Authenticated (id_op p) (name_op p)\<rparr>)"

definition onRFIDEnter :: "KioskClient \<Rightarrow> KioskClient" where
  "onRFIDEnter c =
     (let op = demoLookupOperator (rfidBuffer c);
          c1 = c\<lparr>rfidBuffer := []\<rparr>
      in case op of
           None \<Rightarrow> c1
         | Some p \<Rightarrow> c1\<lparr>state := Authenticated (id_op p) (name_op p)\<rparr>)"

subsection \<open>The session state machine\<close>

definition resetToIdle :: "KioskClient \<Rightarrow> KioskClient" where
  "resetToIdle c = (stopScanner c)\<lparr>selectedWO := None, rfidBuffer := [], state := Idle\<rparr>"

definition canPickWO :: "KioskClient \<Rightarrow> bool" where
  "canPickWO c = (case state c of Authenticated oi on \<Rightarrow> True | _ \<Rightarrow> False)"

text \<open>The work-order buttons call \<open>setSelectedWO(wo)\<close> and are disabled unless
  \<open>canPickWO\<close>.\<close>

definition pickWO :: "WorkOrder \<Rightarrow> KioskClient \<Rightarrow> KioskClient" where
  "pickWO w c = (if canPickWO c then c\<lparr>selectedWO := Some w\<rparr> else c)"

definition startWork :: "int \<Rightarrow> KioskClient \<Rightarrow> KioskClient" where
  "startWork now c =
     (case selectedWO c of
        None \<Rightarrow> c
      | Some w \<Rightarrow>
          (case state c of
             Authenticated oi on \<Rightarrow> c\<lparr>state := Running oi on w now 0\<rparr>
           | _ \<Rightarrow> c))"

definition pause :: "DowntimeReason \<Rightarrow> int \<Rightarrow> KioskClient \<Rightarrow> KioskClient" where
  "pause reason now c =
     (case state c of
        Running oi on w st n \<Rightarrow> c\<lparr>state := Paused oi on w st n reason now\<rparr>
      | _ \<Rightarrow> c)"

definition resume :: "int \<Rightarrow> KioskClient \<Rightarrow> KioskClient" where
  "resume now c =
     (case state c of
        Paused oi on w st n r pt \<Rightarrow>
          (let pausedDuration = now - pt
           in c\<lparr>state := Running oi on w (st + pausedDuration) n\<rparr>)
      | _ \<Rightarrow> c)"

definition addPiece :: "KioskClient \<Rightarrow> KioskClient" where
  "addPiece c =
     (case state c of
        Running oi on w st n \<Rightarrow> c\<lparr>state := Running oi on w st (n + 1)\<rparr>
      | _ \<Rightarrow> c)"

text \<open>\<open>finishWork\<close> returns the summary it shows (if any) and the new state. The
  rate of the summary is read from the memoised \<open>runningInfo\<close>.\<close>

definition finishWork :: "int \<Rightarrow> KioskClient \<Rightarrow> Summary option \<times> KioskClient" where
  "finishWork now c =
     (case state c of
        Running oi on w st n \<Rightarrow>
          (let elapsedMs = now - st
           in (Some \<lparr>sum_operator = on, sum_wo = wo w, sum_produced = n,
                      sum_sure = formatHMS elapsedMs,
                      sum_pph = js_round (pph (runningInfoMemo c))\<rparr>,
               resetToIdle c))
      | Paused oi on w st n r pt \<Rightarrow>
          (let elapsedMs = pt - st
           in (Some \<lparr>sum_operator = on, sum_wo = wo w, sum_produced = n,
                      sum_sure = formatHMS elapsedMs,
                      sum_pph = js_round (pph (runningInfoMemo c))\<rparr>,
               resetToIdle c))
      | _ \<Rightarrow> (None, c))"

subsection \<open>The barcode scanner\<close>

text \<open>What the browser answers during one run of \<open>openScanner\<close>: whether
  \<open>navigator.mediaDevices.getUserMedia\<close> exists; whether the promise of
  \<open>getUserMedia\<close> resolves with a stream (\<open>None\<close>) or rejects with an error of the
  given message; the same for \<open>video.play()\<close>; whether \<open>window.BarcodeDetector\<close>
  exists.\<close>

record OpenEnv =
  hasGetUserMedia :: bool
  getUserMediaError :: "jsstring option"
  playError :: "jsstring option"
  hasBarcodeDetector :: bool

text \<open>The \<open>catch\<close> of \<open>openScanner\<close>: \<open>setScanError\<close> with the message of the error,
  or with a default message when that is empty. It does nothing else.\<close>

definition catchOpenError :: "jsstring \<Rightarrow> KioskClient \<Rightarrow> KioskClient" where
  "catchOpenError msg c =
     c\<lparr>scanError :=
          Some (if msg = []
                then ascii ''Scanner a'' @ [0xE7, 0x131] @ ascii ''lamad'' @ [0x131]
                       @ ascii ''.''
                else msg)\<rparr>"

text \<open>\<open>openScanner\<close> is an \<open>async\<close> function: it runs in three parts, separated by
  its two \<open>await\<close>s. The first two parts return whether the function goes on (\<open>True\<close>)
  or has ended in its \<open>catch\<close> (\<open>False\<close>), and the state.

  The first part, up to the call of \<open>getUserMedia\<close>; its argument says whether
  \<open>getUserMedia\<close> exists.\<close>

definition openScanner_begin :: "bool \<Rightarrow> KioskClient \<Rightarrow> bool \<times> KioskClient" where
  "openScanner_begin has c =
     (let c1 = c\<lparr>scanError := None, scanOpen := True\<rparr>
      in if \<not> has
         then (False, catchOpenError (ascii ''Kamera eri'' @ [0x15F]
                 @ ascii ''imi desteklenmiyor.'') c1)
         else (True, c1\<lparr>pendingGetUserMedia := pendingGetUserMedia c1 + 1\<rparr>))"

text \<open>The second part, from the answer of \<open>getUserMedia\<close> (a stream, or an error with
  its message) to the call of \<open>video.play()\<close>. A stream that is returned is a new one,
  and its tracks are live.\<close>

definition openScanner_gotStream :: "jsstring option \<Rightarrow> KioskClient \<Rightarrow> bool \<times> KioskClient" where
  "openScanner_gotStream err c =
     (let c0 = c\<lparr>pendingGetUserMedia := pendingGetUserMedia c - 1\<rparr>
      in case err of
           Some msg \<Rightarrow> (False, catchOpenError msg c0)
         | None \<Rightarrow>
             (let c1 = c0\<lparr>streamRef := Some (length (streams c0)),
                           streams := streams c0 @ [True]\<rparr>
              in if \<not> scanOpen c1
                 then (False, catchOpenError (ascii ''Video elementi bulunamad'' @ [0x131]
                         @ ascii ''.'') c1)
                 else (True, c1\<lparr>pendingPlay := pendingPlay c1 + 1\<rparr>)))"

text \<open>The third part, from the answer of \<open>video.play()\<close> to the first
  \<open>requestAnimationFrame(loop)\<close>; the second argument says whether
  \<open>window.BarcodeDetector\<close> exists.\<close>

definition openScanner_played :: "jsstring option \<Rightarrow> bool \<Rightarrow> KioskClient \<Rightarrow> KioskClient" where
  "openScanner_played err has c =
     (let c0 = c\<lparr>pendingPlay := pendingPlay c - 1\<rparr>
      in case err of
           Some msg \<Rightarrow> catchOpenError msg c0
         | None \<Rightarrow>
             if \<not> has
             then catchOpenError (ascii ''BarcodeDetector desteklenmiyor. (Android Chrome g''
                    @ [0xFC] @ ascii ''ncel olmal'' @ [0x131] @ ascii '')'') c0
             else requestAnimationFrame c0)"

text \<open>A run of \<open>openScanner\<close> during which nothing else happens.\<close>

definition openScanner :: "OpenEnv \<Rightarrow> KioskClient \<Rightarrow> KioskClient" where
  "openScanner env c =
     (case openScanner_begin (hasGetUserMedia env) c of
        (False, c1) \<Rightarrow> c1
      | (True, c1) \<Rightarrow>
          (case openScanner_gotStream (getUserMediaError env) c1 of
             (False, c2) \<Rightarrow> c2
           | (True, c2) \<Rightarrow> openScanner_played (playError env) (hasBarcodeDetector env) c2))"

text \<open>What \<open>await detector.detect(video)\<close> gives: an exception, or the list of the
  barcodes with their \<open>rawValue\<close> (which the source reads with \<open>?.\<close>).\<close>

datatype DetectResult = DetectFailed | Barcodes "jsstring option list"

text \<open>\<open>barcodes[0]?.rawValue?.trim()\<close> when it is a non-empty string.\<close>

fun firstRaw :: "DetectResult \<Rightarrow> jsstring option" where
  "firstRaw DetectFailed = None"
| "firstRaw (Barcodes []) = None"
| "firstRaw (Barcodes (None # bs)) = None"
| "firstRaw (Barcodes (Some v # bs)) = (if trim v = [] then None else Some (trim v))"

text \<open>The browser runs the callback of a scheduled frame: the frame is no longer
  scheduled, and \<open>loop\<close> runs up to its call of \<open>detect\<close>. A handle that is not
  scheduled runs nothing.\<close>

definition onFrame :: "nat \<Rightarrow> KioskClient \<Rightarrow> KioskClient" where
  "onFrame f c =
     (if f < length (frames c) \<and> frames c ! f
      then c\<lparr>frames := (frames c)[f := False], pendingDetect := pendingDetect c + 1\<rparr>
      else c)"

text \<open>The rest of \<open>loop\<close>, from the answer of \<open>detect\<close> on. It tests nothing but the
  answer.\<close>

definition loop :: "DetectResult \<Rightarrow> KioskClient \<Rightarrow> KioskClient" where
  "loop res c =
     (let c0 = c\<lparr>pendingDetect := pendingDetect c - 1\<rparr>
      in case firstRaw res of
           Some raw \<Rightarrow> loginWithCode raw (stopScanner c0)
         | None \<Rightarrow> requestAnimationFrame c0)"

subsection \<open>Runs of the component\<close>

text \<open>What can happen to the component, as events: the handlers that the user and
  the timer call, and the answers of the browser. An answer (\<open>GotUserMedia\<close>,
  \<open>Played\<close>, \<open>Detected\<close>) happens only when a call of its kind is not answered yet;
  any other event can come between a call and its answer. \<open>Unmount\<close> is the cleanup
  of the effect that stops the scanner.\<close>

datatype Event =
    Type jsstring
  | Enter
  | PickWO WorkOrder
  | Start int
  | Pause DowntimeReason int
  | Resume int
  | AddPiece
  | Finish int
  | Reset
  | Tick
  | Render int
  | OpenScanner bool
  | GotUserMedia "jsstring option"
  | Played "jsstring option" bool
  | StopScanner
  | Frame nat
  | Detected DetectResult
  | Unmount

fun step :: "Event \<Rightarrow> KioskClient \<Rightarrow> KioskClient" where
  "step (Type v) c = setRfidBuffer v c"
| "step Enter c = onRFIDEnter c"
| "step (PickWO w) c = pickWO w c"
| "step (Start now) c = startWork now c"
| "step (Pause r now) c = pause r now c"
| "step (Resume now) c = resume now c"
| "step AddPiece c = addPiece c"
| "step (Finish now) c = snd (finishWork now c)"
| "step Reset c = resetToIdle c"
| "step Tick c = onTick c"
| "step (Render now) c = render now c"
| "step (OpenScanner has) c = snd (openScanner_begin has c)"
| "step (GotUserMedia err) c =
     (if 0 < pendingGetUserMedia c then snd (openScanner_gotStream err c) else c)"
| "step (Played err has) c =
     (if 0 < pendingPlay c then openScanner_played err has c else c)"
| "step StopScanner c = stopScanner c"
| "step (Frame f) c = onFrame f c"
| "step (Detected res) c = (if 0 < pendingDetect c then loop res c else c)"
| "step Unmount c = stopScanner c"

fun exec :: "Event list \<Rightarrow> KioskClient \<Rightarrow> KioskClient" where
  "exec [] c = c"
| "exec (e # es) c = exec es (step e c)"

text \<open>The component as mounted: every \<open>useState\<close> and \<open>useRef\<close> at its initial
  value, no stream and no frame ever requested, no call pending.\<close>

definition initialKiosk :: KioskClient where
  "initialKiosk =
     \<lparr>rfidBuffer = [], selectedWO = None, state = Idle, tick = 0, scanOpen = False,
      scanError = None, streamRef = None, rafRef = None,
      runningInfoMemo = \<lparr>elapsed = 0, pph = Number 0\<rparr>, streams = [], frames = [],
      pendingGetUserMedia = 0, pendingPlay = 0, pendingDetect = 0\<rparr>"

text \<open>The produced count of a session state, where it has one.\<close>

fun producedOf :: "SessionState \<Rightarrow> nat option" where
  "producedOf (Running oi on w st n) = Some n"
| "producedOf (Paused oi on w st n r pt) = Some n"
| "producedOf s = None"

fun isStart :: "Event \<Rightarrow> bool" where
  "isStart (Start now) = True"
| "isStart e = False"

text \<open>A session as a list of cycles: in each, a number of pieces is added, then the
  work is paused (with a reason, at a time) and later resumed (at a time).\<close>

fun runCycles :: "(nat \<times> DowntimeReason \<times> int \<times> int) list \<Rightarrow> KioskClient \<Rightarrow> KioskClient" where
  "runCycles [] c = c"
| "runCycles ((k, r, p, q) # cs) c = runCycles cs (resume q (pause r p ((addPiece ^^ k) c)))"

text \<open>The total time spent paused over such cycles, and the pieces added.\<close>

fun pausedTotal :: "(nat \<times> DowntimeReason \<times> int \<times> int) list \<Rightarrow> int" where
  "pausedTotal [] = 0"
| "pausedTotal ((k, r, p, q) # cs) = (q - p) + pausedTotal cs"

fun piecesTotal :: "(nat \<times> DowntimeReason \<times> int \<times> int) list \<Rightarrow> nat" where
  "piecesTotal [] = 0"
| "piecesTotal ((k, r, p, q) # cs) = k + piecesTotal cs"

subsection \<open>Example states\<close>

definition wo1001 :: WorkOrder where
  "wo1001 = demoWorkOrders ! 0"

text \<open>The card \<open>000000001\<close> is read and the first work order is picked.\<close>

definition authenticatedExample :: KioskClient where
  "authenticatedExample =
     exec [Type (ascii ''000000001''), Enter, Render 0, PickWO wo1001] initialKiosk"

text \<open>The work is started at time 0; a piece is added at 1000; the last tick, and the
  last render, is at 2000.\<close>

definition runningExample :: KioskClient where
  "runningExample =
     exec [Start 0, Render 0, AddPiece, Render 1000, Tick, Render 2000] authenticatedExample"

text \<open>Then the work is paused for a fault at 2500.\<close>

definition pausedExample :: KioskClient where
  "pausedExample = exec [Pause Fault 2500, Render 2500] runningExample"

text \<open>A browser with a camera and a barcode detector, and one with a camera but
  without \<open>BarcodeDetector\<close>.\<close>

definition scannerOk :: OpenEnv where
  "scannerOk = \<lparr>hasGetUserMedia = True, getUserMediaError = None, playError = None,
                 hasBarcodeDetector = True\<rparr>"

definition scannerNoDetector :: OpenEnv where
  "scannerNoDetector = \<lparr>hasGetUserMedia = True, getUserMediaError = None,
                         playError = None, hasBarcodeDetector = False\<rparr>"

text \<open>The scanner is opened on the component as mounted, with every answer in time:
  the camera stream 0 is live and the frame 0 is scheduled.\<close>

definition scanningExample :: KioskClient where
  "scanningExample = exec [OpenScanner True, GotUserMedia None, Played None True] initialKiosk"

text \<open>Runs of the scanner. The scanner is opened twice, every answer in time.\<close>

definition openedTwice :: "Event list" where
  "openedTwice =
     [OpenScanner True, GotUserMedia None, Played None True,
      OpenScanner True, GotUserMedia None, Played None True]"

text \<open>The scanner is opened and closed again before the camera answers (say, while
  the browser asks for the permission); then it is opened again, with every answer in
  time.\<close>

definition closedWhileAsking :: "Event list" where
  "closedWhileAsking =
     [OpenScanner True, StopScanner, GotUserMedia None,
      OpenScanner True, GotUserMedia None, Played None True]"

text \<open>After that, the first frame decodes the card \<open>000000002\<close>.\<close>

definition scannedAfterRetry :: "Event list" where
  "scannedAfterRetry =
     closedWhileAsking @ [Frame 0, Detected (Barcodes [Some (ascii ''000000002'')])]"

text \<open>The scanner is opened; the first frame has called \<open>detect\<close>, which has not
  answered yet.\<close>

definition detecting :: "Event list" where
  "detecting = [OpenScanner True, GotUserMedia None, Played None True, Frame 0]"

section \<open>Properties\<close>

subsection \<open>Evaluation of the examples\<close>

lemmas kiosk_defs =
  setRfidBuffer_def onRFIDEnter_def loginWithCode_def render_def onTick_def pickWO_def
  canPickWO_def startWork_def pause_def resume_def addPiece_def
  resetToIdle_def stopScanner_def cancelAnimationFrame_def requestAnimationFrame_def
  stopTracks_def catchOpenError_def openScanner_def openScanner_begin_def
  openScanner_gotStream_def openScanner_played_def loop_def onFrame_def
  initialKiosk_def demoLookupOperator_def trim_def is_ws_def toLowerCase_def lowerUnit_def
  demoWorkOrders_def js_div_def openStreams_def pendingFrames_def ascii_def

lemma authenticatedExample_eq:
  "authenticatedExample =
     \<lparr>rfidBuffer = [], selectedWO = Some wo1001,
      state = Authenticated (ascii ''op-1'') (ascii ''Ahmet''),
      tick = 0, scanOpen = False, scanError = None, streamRef = None, rafRef = None,
      runningInfoMemo = \<lparr>elapsed = 0, pph = Number 0\<rparr>, streams = [], frames = [],
      pendingGetUserMedia = 0, pendingPlay = 0, pendingDetect = 0\<rparr>"
  by (simp add: authenticatedExample_def kiosk_defs)

lemma runningExample_eq:
  "runningExample =
     \<lparr>rfidBuffer = [], selectedWO = Some wo1001,
      state = Running (ascii ''op-1'') (ascii ''Ahmet'') wo1001 0 1,
      tick = 1, scanOpen = False, scanError = None, streamRef = None, rafRef = None,
      runningInfoMemo = \<lparr>elapsed = 2000, pph = Number 1800\<rparr>, streams = [], frames = [],
      pendingGetUserMedia = 0, pendingPlay = 0, pendingDetect = 0\<rparr>"
  by (simp add: runningExample_def authenticatedExample_eq kiosk_defs Let_def)

lemma pausedExample_eq:
  "pausedExample =
     \<lparr>rfidBuffer = [], selectedWO = Some wo1001,
      state = Paused (ascii ''op-1'') (ascii ''Ahmet'') wo1001 0 1 Fault 2500,
      tick = 1, scanOpen = False, scanError = None, streamRef = None, rafRef = None,
      runningInfoMemo = \<lparr>elapsed = 2500, pph = Number 1440\<rparr>, streams = [], frames = [],
      pendingGetUserMedia = 0, pendingPlay = 0, pendingDetect = 0\<rparr>"
  by (simp add: pausedExample_def runningExample_eq kiosk_defs Let_def)

lemma scanningExample_eq:
  "scanningExample =
     \<lparr>rfidBuffer = [], selectedWO = None, state = Idle,
      tick = 0, scanOpen = True, scanError = None, streamRef = Some 0, rafRef = Some 0,
      runningInfoMemo = \<lparr>elapsed = 0, pph = Number 0\<rparr>, streams = [True], frames = [True],
      pendingGetUserMedia = 0, pendingPlay = 0, pendingDetect = 0\<rparr>"
  by (simp add: scanningExample_def kiosk_defs Let_def)

lemma wo1001_wo: "wo wo1001 = ascii ''WO-1001''"
  by (simp add: wo1001_def demoWorkOrders_def)

lemma formatHMS_examples:
  "formatHMS 2900 = ascii ''00:00:02''" "formatHMS 15000 = ascii ''00:00:15''"
  "formatHMS 13000 = ascii ''00:00:13''" "formatHMS 5000 = ascii ''00:00:05''"
  "formatHMS 2500 = ascii ''00:00:02''" "formatHMS 3723000 = ascii ''01:02:03''"
  "formatHMS (- 5000) = ascii ''00:00:00''" "formatHMS 0 = ascii ''00:00:00''"
  by (simp_all add: formatHMS_def hmsSeconds_def pad2_def ascii_def)

text \<open>A run of \<open>openScanner\<close> during which nothing else happens is the run of its
  three events, when no call was pending before.\<close>

lemma openScanner_as_events:
  "pendingGetUserMedia c = 0 \<Longrightarrow> pendingPlay c = 0 \<Longrightarrow>
   exec [OpenScanner (hasGetUserMedia env), GotUserMedia (getUserMediaError env),
         Played (playError env) (hasBarcodeDetector env)] c = openScanner env c"
  by (simp add: openScanner_def openScanner_begin_def openScanner_gotStream_def
      catchOpenError_def Let_def split: option.splits)

subsection \<open>The session handlers, phase by phase\<close>

lemma startWork_state:
  "state c = Authenticated oi on \<Longrightarrow> selectedWO c = Some w \<Longrightarrow>
   state (startWork t0 c) = Running oi on w t0 0"
  by (simp add: startWork_def)

lemma pause_state:
  "state c = Running oi on w st n \<Longrightarrow> state (pause r t1 c) = Paused oi on w st n r t1"
  by (simp add: pause_def)

lemma resume_state:
  "state c = Paused oi on w st n r t1 \<Longrightarrow>
   state (resume t2 c) = Running oi on w (st + (t2 - t1)) n"
  by (simp add: resume_def)

lemma addPiece_state:
  "state c = Running oi on w st n \<Longrightarrow> state (addPiece c) = Running oi on w st (n + 1)"
  by (simp add: addPiece_def)

lemma addPiece_funpow_state:
  "state c = Running oi on w st n \<Longrightarrow> state ((addPiece ^^ k) c) = Running oi on w st (n + k)"
  by (induction k) (simp_all add: addPiece_state)

lemma runCycles_state:
  "state c = Running oi on w st n \<Longrightarrow>
   state (runCycles cs c) = Running oi on w (st + pausedTotal cs) (n + piecesTotal cs)"
proof (induction cs arbitrary: c st n)
  case Nil
  then show ?case by simp
next
  case (Cons x cs)
  obtain k r p q where x: "x = (k, r, p, q)" by (cases x) auto
  have "state (resume q (pause r p ((addPiece ^^ k) c))) = Running oi on w (st + (q - p)) (n + k)"
    using Cons.prems by (simp add: resume_state pause_state addPiece_funpow_state)
  from Cons.IH [OF this] show ?case by (simp add: x algebra_simps)
qed

lemma finishWork_running:
  "state c = Running oi on w st n \<Longrightarrow>
   finishWork now c =
     (Some \<lparr>sum_operator = on, sum_wo = wo w, sum_produced = n,
            sum_sure = formatHMS (now - st),
            sum_pph = js_round (pph (runningInfoMemo c))\<rparr>, resetToIdle c)"
  by (simp add: finishWork_def)

lemma finishWork_paused:
  "state c = Paused oi on w st n r pt \<Longrightarrow>
   finishWork now c =
     (Some \<lparr>sum_operator = on, sum_wo = wo w, sum_produced = n,
            sum_sure = formatHMS (pt - st),
            sum_pph = js_round (pph (runningInfoMemo c))\<rparr>, resetToIdle c)"
  by (simp add: finishWork_def)

subsection \<open>Pause and resume: the time base\<close>

text \<open>
  Claim C1. A session is started at \<open>ts\<close> (from \<open>Authenticated\<close>, with a work order
  selected), goes through any number of cycles of adding pieces, pausing and resuming,
  and is finished at \<open>tf\<close>. Each \<open>resume\<close> at \<open>tr\<close> of a session paused at \<open>tp\<close> moves
  the effective \<open>startTs\<close> forward by \<open>tr - tp\<close>. So the session is then \<open>Running\<close> with
  \<open>startTs = ts +\<close> the total time spent paused, the elapsed time computed at \<open>tf\<close> is
  the span \<open>tf - ts\<close> minus the total time spent paused, and that is the duration the
  summary of \<open>finishWork\<close> shows. The same holds when the session is finished while
  paused (since \<open>tq\<close>): the time from \<open>tq\<close> to \<open>tf\<close> is paused time too.
\<close>

theorem resume_excises_paused_time:
  assumes "state c = Authenticated oi on" and "selectedWO c = Some w"
  shows "state (runCycles cs (startWork ts c))
           = Running oi on w (ts + pausedTotal cs) (piecesTotal cs) \<and>
         elapsed (runningInfo (state (runCycles cs (startWork ts c))) tf)
           = (tf - ts) - pausedTotal cs \<and>
         map_option sum_sure (fst (finishWork tf (runCycles cs (startWork ts c))))
           = Some (formatHMS ((tf - ts) - pausedTotal cs)) \<and>
         map_option sum_sure
            (fst (finishWork tf (pause rq tq (runCycles cs (startWork ts c)))))
           = Some (formatHMS ((tf - ts) - (pausedTotal cs + (tf - tq)))) \<and>
         (state d = Paused oi' on' w' st n r tp \<longrightarrow>
            state (resume tr d) = Running oi' on' w' (st + (tr - tp)) n)"
proof -
  have 1: "state (runCycles cs (startWork ts c))
             = Running oi on w (ts + pausedTotal cs) (piecesTotal cs)"
    using runCycles_state [OF startWork_state [OF assms]] by simp
  have 2: "elapsed (runningInfo (state (runCycles cs (startWork ts c))) tf)
             = (tf - ts) - pausedTotal cs"
    by (simp add: 1 Let_def)
  have 3: "map_option sum_sure (fst (finishWork tf (runCycles cs (startWork ts c))))
             = Some (formatHMS ((tf - ts) - pausedTotal cs))"
    by (simp add: finishWork_running [OF 1] algebra_simps)
  have 4: "state d = Paused oi' on' w' st n r tp \<longrightarrow>
             state (resume tr d) = Running oi' on' w' (st + (tr - tp)) n"
    by (simp add: resume_state)
  have "(tf - ts) - (pausedTotal cs + (tf - tq)) = tq - (ts + pausedTotal cs)"
    by simp
  then have 5: "map_option sum_sure
            (fst (finishWork tf (pause rq tq (runCycles cs (startWork ts c)))))
           = Some (formatHMS ((tf - ts) - (pausedTotal cs + (tf - tq))))"
    by (simp only: finishWork_paused [OF pause_state [OF 1]] fst_conv option.map
        Summary.simps)
  from 1 2 3 4 5 show ?thesis by blast
qed

text \<open>The session of the example: started at 0, five pieces, a fault from 10 s to
  15 s, finished at 20 s: 15 s of work. Paused again at 18 s and finished at 20 s,
  paused: 13 s of work.\<close>

theorem resume_excises_paused_time_witness:
  "state authenticatedExample = Authenticated (ascii ''op-1'') (ascii ''Ahmet'') \<and>
   selectedWO authenticatedExample = Some wo1001 \<and>
   state (runCycles [(5, Fault, 10000, 15000)] (startWork 0 authenticatedExample))
     = Running (ascii ''op-1'') (ascii ''Ahmet'') wo1001 5000 5 \<and>
   elapsed (runningInfo
      (state (runCycles [(5, Fault, 10000, 15000)] (startWork 0 authenticatedExample))) 20000)
     = 15000 \<and>
   map_option sum_sure
      (fst (finishWork 20000
         (runCycles [(5, Fault, 10000, 15000)] (startWork 0 authenticatedExample))))
     = Some (ascii ''00:00:15'') \<and>
   map_option sum_sure
      (fst (finishWork 20000 (pause Break 18000
         (runCycles [(5, Fault, 10000, 15000)] (startWork 0 authenticatedExample)))))
     = Some (ascii ''00:00:13'') \<and>
   state (resume 15000 (pause Fault 10000 (startWork 0 authenticatedExample)))
     = Running (ascii ''op-1'') (ascii ''Ahmet'') wo1001 5000 0"
proof -
  have a: "state authenticatedExample = Authenticated (ascii ''op-1'') (ascii ''Ahmet'')"
    by (simp add: authenticatedExample_eq)
  have s: "selectedWO authenticatedExample = Some wo1001"
    by (simp add: authenticatedExample_eq)
  have p: "state (pause Fault 10000 (startWork 0 authenticatedExample))
             = Paused (ascii ''op-1'') (ascii ''Ahmet'') wo1001 0 0 Fault 10000"
    by (simp add: pause_state [OF startWork_state [OF a s]])
  show ?thesis
    using resume_excises_paused_time [OF a s,
        where cs = "[(5, Fault, 10000, 15000)]" and ts = 0 and tf = 20000
          and d = "pause Fault 10000 (startWork 0 authenticatedExample)"
          and oi' = "(ascii ''op-1'')" and on' = "(ascii ''Ahmet'')" and w' = wo1001 and st = 0 and n = 0
          and r = Fault and tp = 10000 and tr = 15000 and rq = Break and tq = 18000]
      a s p
    by (simp add: formatHMS_examples)
qed

subsection \<open>The rate is guarded\<close>

text \<open>
  Claim C6. For a \<open>Running\<close> session the as-of time is the clock, for a \<open>Paused\<close> one it
  is \<open>pauseTs\<close>. With \<open>hours = elapsed / 3600000\<close>, the rate is \<open>produced / hours\<close> when
  \<open>hours\<close> is positive and exactly 0 otherwise, in particular when no time has elapsed.
  For every session state and every clock the rate is a finite number: never \<open>NaN\<close>,
  never an infinity.
\<close>

theorem rate_is_guarded_quotient:
  "pph (runningInfo (Running oi on w st n) now) =
     (if 0 < real_of_int (now - st) / 3600000
      then Number (real n / (real_of_int (now - st) / 3600000))
      else Number 0) \<and>
   pph (runningInfo (Paused oi on w st n r pt) now) =
     (if 0 < real_of_int (pt - st) / 3600000
      then Number (real n / (real_of_int (pt - st) / 3600000))
      else Number 0) \<and>
   pph (runningInfo (Running oi on w st n) st) = Number 0 \<and>
   (\<exists>x. pph (runningInfo s now') = Number x)"
proof -
  have "\<exists>x. pph (runningInfo s now') = Number x"
    by (cases s) (auto simp: js_div_def Let_def)
  then show ?thesis
    by (simp add: js_div_def Let_def)
qed

text \<open>Five pieces in one hour are 5 an hour; at the start, and with a clock that
  went back, the rate is 0. Without the guard the division at the start would give
  \<open>NaN\<close>.\<close>

theorem rate_is_guarded_quotient_witness:
  "pph (runningInfo (Running (ascii ''op-1'') (ascii ''Ahmet'') wo1001 0 5) 3600000) = Number 5 \<and>
   pph (runningInfo (Paused (ascii ''op-1'') (ascii ''Ahmet'') wo1001 0 5 Break 1800000) 9999999) = Number 10 \<and>
   pph (runningInfo (Running (ascii ''op-1'') (ascii ''Ahmet'') wo1001 0 0) 0) = Number 0 \<and>
   pph (runningInfo (Running (ascii ''op-1'') (ascii ''Ahmet'') wo1001 1000 5) 400) = Number 0 \<and>
   js_div 0 0 = NaN"
  using rate_is_guarded_quotient [where oi = "(ascii ''op-1'')" and on = "(ascii ''Ahmet'')" and w = wo1001
      and st = 0 and n = 5 and now = 3600000 and r = Break and pt = 1800000]
    rate_is_guarded_quotient [where oi = "(ascii ''op-1'')" and on = "(ascii ''Ahmet'')" and w = wo1001
      and st = 0 and n = 0 and now = 0]
    rate_is_guarded_quotient [where oi = "(ascii ''op-1'')" and on = "(ascii ''Ahmet'')" and w = wo1001
      and st = 1000 and n = 5 and now = 400]
  by (simp add: js_div_def)

subsection \<open>Starting the work\<close>

text \<open>
  Claim C8. \<open>startWork\<close> acts only in the phase \<open>Authenticated\<close> and with a work order
  selected: the session becomes \<open>Running\<close> with the authenticated operator, the
  selected order, \<open>startTs\<close> the clock and \<open>produced = 0\<close>, and nothing else of the
  component changes. When the phase is not \<open>Authenticated\<close> or no order is selected,
  nothing changes at all.
\<close>

theorem startWork_only_from_authenticated:
  "(selectedWO c = Some w \<and> state c = Authenticated oi on \<longrightarrow>
      startWork now c = c\<lparr>state := Running oi on w now 0\<rparr>) \<and>
   (selectedWO c = None \<or> (\<forall>oi on. state c \<noteq> Authenticated oi on) \<longrightarrow>
      startWork now c = c)"
  by (auto simp: startWork_def split: option.splits SessionState.splits)

theorem startWork_only_from_authenticated_witness:
  "selectedWO authenticatedExample = Some wo1001 \<and>
   state authenticatedExample = Authenticated (ascii ''op-1'') (ascii ''Ahmet'') \<and>
   startWork 7 authenticatedExample
     = authenticatedExample\<lparr>state := Running (ascii ''op-1'') (ascii ''Ahmet'') wo1001 7 0\<rparr> \<and>
   selectedWO initialKiosk = None \<and>
   startWork 7 initialKiosk = initialKiosk \<and>
   startWork 7 runningExample = runningExample"
proof -
  have r: "\<forall>oi on. state runningExample \<noteq> Authenticated oi on"
    by (simp add: runningExample_eq)
  show ?thesis
    using startWork_only_from_authenticated [where c = authenticatedExample and w = wo1001
        and oi = "(ascii ''op-1'')" and on = "(ascii ''Ahmet'')" and now = 7]
      startWork_only_from_authenticated [where c = initialKiosk and now = 7]
      startWork_only_from_authenticated [where c = runningExample and now = 7] r
    by (simp add: authenticatedExample_eq initialKiosk_def)
qed

subsection \<open>The produced count along runs\<close>

lemma state_stopScanner: "state (stopScanner c) = state c"
  by (simp add: stopScanner_def Let_def cancelAnimationFrame_def stopTracks_def split: option.splits)

lemma state_requestAnimationFrame: "state (requestAnimationFrame c) = state c"
  by (simp add: requestAnimationFrame_def)

lemma state_catchOpenError: "state (catchOpenError m c) = state c"
  by (simp add: catchOpenError_def)

lemma state_openScanner_begin: "state (snd (openScanner_begin has c)) = state c"
  by (simp add: openScanner_begin_def state_catchOpenError Let_def)

lemma state_openScanner_gotStream: "state (snd (openScanner_gotStream err c)) = state c"
  by (simp add: openScanner_gotStream_def state_catchOpenError Let_def split: option.splits)

lemma state_openScanner_played: "state (openScanner_played err has c) = state c"
  by (simp add: openScanner_played_def state_catchOpenError state_requestAnimationFrame
      Let_def split: option.splits)

lemma state_onFrame: "state (onFrame f c) = state c"
  by (simp add: onFrame_def)

lemma produced_loginWithCode:
  "producedOf (state (loginWithCode code c)) = None \<or> state (loginWithCode code c) = state c"
  by (simp add: loginWithCode_def Let_def split: option.splits)

lemma produced_onRFIDEnter:
  "producedOf (state (onRFIDEnter c)) = None \<or> state (onRFIDEnter c) = state c"
  by (simp add: onRFIDEnter_def Let_def split: option.splits)

lemma produced_loop:
  "producedOf (state (loop res c)) = None \<or> state (loop res c) = state c"
  using produced_loginWithCode [of _ "stopScanner (c\<lparr>pendingDetect := pendingDetect c - 1\<rparr>)"]
  by (auto simp add: loop_def Let_def state_stopScanner state_requestAnimationFrame
      split: option.splits)

lemma produced_finish: "producedOf (state (snd (finishWork now c))) = None \<or> snd (finishWork now c) = c"
  by (cases "state c") (simp_all add: finishWork_def resetToIdle_def)

lemma step_produced:
  assumes "producedOf (state (step e c)) = Some m"
  shows "(producedOf (state c) = None \<and> isStart e \<and> m = 0) \<or>
   (\<exists>n. producedOf (state c) = Some n \<and> n \<le> m)"
proof (cases e)
  case (Type v) with assms show ?thesis by (auto simp: setRfidBuffer_def)
next
  case Enter with assms show ?thesis using produced_onRFIDEnter [of c] by auto
next
  case (PickWO w) with assms show ?thesis by (auto simp: pickWO_def split: if_splits)
next
  case (Start now) with assms show ?thesis
    by (cases "state c"; cases "selectedWO c") (auto simp: startWork_def)
next
  case (Pause r now) with assms show ?thesis by (cases "state c") (auto simp: pause_def)
next
  case (Resume now) with assms show ?thesis by (cases "state c") (auto simp: resume_def Let_def)
next
  case AddPiece with assms show ?thesis by (cases "state c") (auto simp: addPiece_def)
next
  case (Finish now) with assms show ?thesis using produced_finish [of now c] by auto
next
  case Reset with assms show ?thesis by (auto simp: resetToIdle_def)
next
  case Tick with assms show ?thesis by (auto simp: onTick_def)
next
  case (Render now) with assms show ?thesis by (auto simp: render_def)
next
  case (OpenScanner has) with assms show ?thesis by (auto simp: state_openScanner_begin)
next
  case (GotUserMedia err) with assms show ?thesis
    by (auto simp: state_openScanner_gotStream split: if_splits)
next
  case (Played err has) with assms show ?thesis
    by (auto simp: state_openScanner_played split: if_splits)
next
  case StopScanner with assms show ?thesis by (auto simp: state_stopScanner)
next
  case (Frame f) with assms show ?thesis by (auto simp: state_onFrame)
next
  case (Detected res) with assms show ?thesis
    using produced_loop [of res c] by (auto split: if_splits)
next
  case Unmount with assms show ?thesis by (auto simp: state_stopScanner)
qed

lemma exec_no_start_None:
  "\<forall>e\<in>set es. \<not> isStart e \<Longrightarrow> producedOf (state c) = None \<Longrightarrow>
   producedOf (state (exec es c)) = None"
proof (induction es arbitrary: c)
  case Nil then show ?case by simp
next
  case (Cons e es)
  have "producedOf (state (step e c)) = None"
  proof (cases "producedOf (state (step e c))")
    case None then show ?thesis .
  next
    case (Some m)
    from step_produced [OF this] Cons.prems show ?thesis by auto
  qed
  with Cons show ?case by simp
qed

lemma exec_mono:
  "\<forall>e\<in>set es. \<not> isStart e \<Longrightarrow> producedOf (state c) = Some n \<Longrightarrow>
   producedOf (state (exec es c)) = Some m \<Longrightarrow> n \<le> m"
proof (induction es arbitrary: c n)
  case Nil then show ?case by simp
next
  case (Cons e es)
  show ?case
  proof (cases "producedOf (state (step e c))")
    case None
    with exec_no_start_None [of es "step e c"] Cons.prems show ?thesis by simp
  next
    case (Some k)
    from step_produced [OF this] Cons.prems have "n \<le> k" by auto
    moreover have "k \<le> m" using Cons.IH [of "step e c" k] Some Cons.prems by simp
    ultimately show ?thesis by simp
  qed
qed

text \<open>
  Claim C9. \<open>addPiece\<close> acts only in the phase \<open>Running\<close>, where it adds exactly 1 to
  \<open>produced\<close> (whatever its value) and changes nothing else; in every other phase it
  changes nothing. Along every run of the component, whatever the handlers called: a
  step that leads to a state with a produced count either keeps or raises the count
  of the state before, or is a start, from a state without a count, and gives the
  count 0; so over a run without a start the count never decreases.
\<close>

theorem addPiece_only_while_running:
  "(state c = Running oi on w st n \<longrightarrow>
      addPiece c = c\<lparr>state := Running oi on w st (n + 1)\<rparr>) \<and>
   ((\<forall>oi on w st n. state c \<noteq> Running oi on w st n) \<longrightarrow> addPiece c = c) \<and>
   (producedOf (state (step e c)) = Some m \<longrightarrow>
      (producedOf (state c) = None \<and> isStart e \<and> m = 0) \<or>
      (\<exists>k. producedOf (state c) = Some k \<and> k \<le> m)) \<and>
   ((\<forall>e\<in>set es. \<not> isStart e) \<and> producedOf (state d) = Some a \<and>
    producedOf (state (exec es d)) = Some b \<longrightarrow> a \<le> b)"
proof -
  have 1: "state c = Running oi on w st n \<longrightarrow>
      addPiece c = c\<lparr>state := Running oi on w st (n + 1)\<rparr>"
    by (simp add: addPiece_def)
  have 2: "(\<forall>oi on w st n. state c \<noteq> Running oi on w st n) \<longrightarrow> addPiece c = c"
    by (cases "state c") (simp_all add: addPiece_def)
  have 3: "producedOf (state (step e c)) = Some m \<longrightarrow>
      (producedOf (state c) = None \<and> isStart e \<and> m = 0) \<or>
      (\<exists>k. producedOf (state c) = Some k \<and> k \<le> m)"
    using step_produced [of e c m] by blast
  have 4: "(\<forall>e\<in>set es. \<not> isStart e) \<and> producedOf (state d) = Some a \<and>
    producedOf (state (exec es d)) = Some b \<longrightarrow> a \<le> b"
    using exec_mono [of es d a b] by blast
  from 1 2 3 4 show ?thesis by blast
qed

text \<open>In the running example (one piece so far): a piece more makes 2; paused, or
  not started, nothing changes; a start gives the count 0; three pieces more around a
  pause make 4.\<close>

theorem addPiece_only_while_running_witness:
  "addPiece runningExample
     = runningExample\<lparr>state := Running (ascii ''op-1'') (ascii ''Ahmet'') wo1001 0 2\<rparr> \<and>
   addPiece pausedExample = pausedExample \<and>
   addPiece authenticatedExample = authenticatedExample \<and>
   addPiece initialKiosk = initialKiosk \<and>
   producedOf (state authenticatedExample) = None \<and>
   producedOf (state (step (Start 5) authenticatedExample)) = Some 0 \<and>
   producedOf (state runningExample) = Some 1 \<and>
   producedOf (state (exec [AddPiece, Pause Fault 5000, AddPiece, Resume 9000, AddPiece,
      AddPiece] runningExample)) = Some 4"
proof -
  have r: "state runningExample = Running (ascii ''op-1'') (ascii ''Ahmet'') wo1001 0 1"
    by (simp add: runningExample_eq)
  have p: "\<forall>oi on w st n. state pausedExample \<noteq> Running oi on w st n"
    by (simp add: pausedExample_eq)
  have a: "\<forall>oi on w st n. state authenticatedExample \<noteq> Running oi on w st n"
    by (simp add: authenticatedExample_eq)
  have i: "\<forall>oi on w st n. state initialKiosk \<noteq> Running oi on w st n"
    by (simp add: initialKiosk_def)
  have s: "producedOf (state (step (Start 5) authenticatedExample)) = Some 0"
    by (simp add: authenticatedExample_eq startWork_def)
  have e: "producedOf (state (exec [AddPiece, Pause Fault 5000, AddPiece, Resume 9000,
      AddPiece, AddPiece] runningExample)) = Some 4"
    by (simp add: runningExample_eq addPiece_def pause_def resume_def)
  show ?thesis
    using addPiece_only_while_running [where c = runningExample and oi = "(ascii ''op-1'')"
        and on = "(ascii ''Ahmet'')" and w = wo1001 and st = 0 and n = 1]
      addPiece_only_while_running [where c = pausedExample]
      addPiece_only_while_running [where c = initialKiosk]
      addPiece_only_while_running [where c = authenticatedExample and e = "Start 5"
        and m = 0 and d = runningExample and a = 1 and b = 4
        and es = "[AddPiece, Pause Fault 5000, AddPiece, Resume 9000, AddPiece, AddPiece]"]
      r p a i s e
    by (simp add: authenticatedExample_eq)
qed

subsection \<open>Code entry\<close>

lemma trim_idem: "trim (trim s) = trim s"
proof -
  define xs where "xs = dropWhile is_ws s"
  define ys where "ys = rev (dropWhile is_ws (rev xs))"
  have "rev (takeWhile is_ws (rev xs) @ dropWhile is_ws (rev xs)) = xs"
    by simp
  then have pre: "ys @ rev (takeWhile is_ws (rev xs)) = xs"
    by (simp only: rev_append ys_def)
  have A: "dropWhile is_ws ys = ys"
  proof (cases "ys = []")
    case True
    then show ?thesis by simp
  next
    case False
    then have "hd ys = hd xs" using pre hd_append2 [of ys "rev (takeWhile is_ws (rev xs))"] by simp
    moreover have "xs \<noteq> []" using pre False by auto
    then have "\<not> is_ws (hd xs)" unfolding xs_def by (rule hd_dropWhile)
    ultimately show ?thesis by (simp add: dropWhile_eq_self_iff)
  qed
  have B: "dropWhile is_ws (rev ys) = rev ys"
    by (simp add: ys_def)
  have "trim s = ys" by (simp add: trim_def xs_def ys_def)
  moreover have "trim ys = ys" by (simp add: trim_def A B)
  ultimately show ?thesis by simp
qed

lemma demoLookupOperator_None: "demoLookupOperator code = None \<longleftrightarrow> trim code = []"
  by (simp add: demoLookupOperator_def Let_def)

lemma demoLookupOperator_trim: "demoLookupOperator (trim code) = demoLookupOperator code"
  by (simp add: demoLookupOperator_def trim_idem)

lemma onRFIDEnter_empty: "trim (rfidBuffer c) = [] \<Longrightarrow> onRFIDEnter c = c\<lparr>rfidBuffer := []\<rparr>"
  by (simp add: onRFIDEnter_def demoLookupOperator_def)

lemma onRFIDEnter_code:
  "demoLookupOperator (rfidBuffer c) = Some p \<Longrightarrow>
   onRFIDEnter c = c\<lparr>rfidBuffer := [], state := Authenticated (id_op p) (name_op p)\<rparr>"
  by (simp add: onRFIDEnter_def)

lemma trims:
  "trim (ascii ''  '') = []" "trim [] = []"
  "trim (ascii '' 000000002 '') = ascii ''000000002''"
  "trim (ascii ''000000002'') = ascii ''000000002''"
  "trim [0xA0] = []" "trim [0x2003, 0x09, 0x3000] = []"
  "trim (0xFEFF # ascii ''000000001'' @ [0x0D, 0x0A]) = ascii ''000000001''"
  by (simp_all add: trim_def is_ws_def ascii_def)

lemma cards_nonempty: "ascii ''000000001'' \<noteq> []" "ascii ''000000002'' \<noteq> []"
  by (simp_all add: ascii_def)

lemma lookups:
  "demoLookupOperator (ascii ''000000002'')
     = Some \<lparr>id_op = ascii ''op-2'', name_op = ascii ''Lider''\<rparr>"
  "demoLookupOperator (ascii ''000000001'')
     = Some \<lparr>id_op = ascii ''op-1'', name_op = ascii ''Ahmet''\<rparr>"
  "demoLookupOperator (ascii ''LiDeR'')
     = Some \<lparr>id_op = ascii ''op-2'', name_op = ascii ''Lider''\<rparr>"
  "demoLookupOperator ([0x4C, 0x130] @ ascii ''DER'')
     = Some \<lparr>id_op = ascii ''op-x'',
             name_op = ascii ''Operat'' @ [0xF6] @ ascii ''r (L'' @ [0x130] @ ascii ''DER)''\<rparr>"
  by (simp_all add: demoLookupOperator_def trim_def is_ws_def toLowerCase_def lowerUnit_def
      ascii_def)

text \<open>
  Claim C10. On the terminator (\<open>onRFIDEnter\<close>) the buffer is always cleared. When the
  trimmed buffer is empty (an empty or white-space buffer) nothing else changes: the
  session stays in its phase. Otherwise the code that counts is the trimmed buffer:
  the operator looked up from it is authenticated.
\<close>

theorem onRFIDEnter_empty_code_ignored:
  "rfidBuffer (onRFIDEnter c) = [] \<and>
   (trim (rfidBuffer c) = [] \<longrightarrow> onRFIDEnter c = c\<lparr>rfidBuffer := []\<rparr>) \<and>
   (trim (rfidBuffer c) \<noteq> [] \<longrightarrow>
      (\<exists>p. demoLookupOperator (trim (rfidBuffer c)) = Some p \<and>
           onRFIDEnter c = c\<lparr>rfidBuffer := [], state := Authenticated (id_op p) (name_op p)\<rparr>))"
proof -
  have 1: "rfidBuffer (onRFIDEnter c) = []"
    by (simp add: onRFIDEnter_def Let_def split: option.splits)
  have 2: "trim (rfidBuffer c) = [] \<longrightarrow> onRFIDEnter c = c\<lparr>rfidBuffer := []\<rparr>"
    by (simp add: onRFIDEnter_empty)
  have 3: "trim (rfidBuffer c) \<noteq> [] \<longrightarrow>
      (\<exists>p. demoLookupOperator (trim (rfidBuffer c)) = Some p \<and>
           onRFIDEnter c = c\<lparr>rfidBuffer := [], state := Authenticated (id_op p) (name_op p)\<rparr>)"
  proof
    assume "trim (rfidBuffer c) \<noteq> []"
    then obtain p where p: "demoLookupOperator (rfidBuffer c) = Some p"
      using demoLookupOperator_None [of "rfidBuffer c"] by (cases "demoLookupOperator (rfidBuffer c)") auto
    then show "\<exists>p. demoLookupOperator (trim (rfidBuffer c)) = Some p \<and>
           onRFIDEnter c = c\<lparr>rfidBuffer := [], state := Authenticated (id_op p) (name_op p)\<rparr>"
      using onRFIDEnter_code [OF p] by (simp add: demoLookupOperator_trim)
  qed
  from 1 2 3 show ?thesis by blast
qed

text \<open>A blank buffer, and a buffer of a no-break space or of other white space of
  Unicode, leave the mounted component and the running example as they are; the
  buffer \<open>" 000000002 "\<close> counts as \<open>000000002\<close>, and a card behind a byte order mark
  and before a line end counts as the card.\<close>

theorem onRFIDEnter_empty_code_ignored_witness:
  "trim (rfidBuffer (setRfidBuffer (ascii ''  '') initialKiosk)) = [] \<and>
   onRFIDEnter (setRfidBuffer (ascii ''  '') initialKiosk) = initialKiosk \<and>
   onRFIDEnter initialKiosk = initialKiosk \<and>
   onRFIDEnter (setRfidBuffer (ascii ''  '') runningExample) = runningExample \<and>
   onRFIDEnter (setRfidBuffer [0xA0] initialKiosk) = initialKiosk \<and>
   onRFIDEnter (setRfidBuffer [0x2003, 0x09, 0x3000] runningExample) = runningExample \<and>
   trim (rfidBuffer (setRfidBuffer (ascii '' 000000002 '') initialKiosk))
     = ascii ''000000002'' \<and>
   onRFIDEnter (setRfidBuffer (ascii '' 000000002 '') initialKiosk)
     = initialKiosk\<lparr>state := Authenticated (ascii ''op-2'') (ascii ''Lider'')\<rparr> \<and>
   onRFIDEnter (setRfidBuffer (0xFEFF # ascii ''000000001'' @ [0x0D, 0x0A]) initialKiosk)
     = initialKiosk\<lparr>state := Authenticated (ascii ''op-1'') (ascii ''Ahmet'')\<rparr>"
proof -
  have b: "rfidBuffer initialKiosk = []" "rfidBuffer runningExample = []"
    by (simp_all add: initialKiosk_def runningExample_eq)
  have 1: "onRFIDEnter (setRfidBuffer (ascii ''  '') initialKiosk) = initialKiosk"
    using onRFIDEnter_empty_code_ignored [where c = "setRfidBuffer (ascii ''  '') initialKiosk"]
    by (simp add: setRfidBuffer_def trims initialKiosk_def)
  have 2: "onRFIDEnter initialKiosk = initialKiosk"
    using onRFIDEnter_empty_code_ignored [where c = initialKiosk]
    by (simp add: trims initialKiosk_def)
  have 3: "onRFIDEnter (setRfidBuffer (ascii ''  '') runningExample) = runningExample"
    using onRFIDEnter_empty_code_ignored [where c = "setRfidBuffer (ascii ''  '') runningExample"]
    by (simp add: setRfidBuffer_def trims runningExample_eq)
  have 4: "onRFIDEnter (setRfidBuffer [0xA0] initialKiosk) = initialKiosk"
    using onRFIDEnter_empty_code_ignored [where c = "setRfidBuffer [0xA0] initialKiosk"]
    by (simp add: setRfidBuffer_def trims initialKiosk_def)
  have 5: "onRFIDEnter (setRfidBuffer [0x2003, 0x09, 0x3000] runningExample) = runningExample"
    using onRFIDEnter_empty_code_ignored
      [where c = "setRfidBuffer [0x2003, 0x09, 0x3000] runningExample"]
    by (simp add: setRfidBuffer_def trims runningExample_eq)
  have 6: "onRFIDEnter (setRfidBuffer (ascii '' 000000002 '') initialKiosk)
     = initialKiosk\<lparr>state := Authenticated (ascii ''op-2'') (ascii ''Lider'')\<rparr>"
    using onRFIDEnter_empty_code_ignored
      [where c = "setRfidBuffer (ascii '' 000000002 '') initialKiosk"]
    by (simp add: setRfidBuffer_def trims lookups cards_nonempty initialKiosk_def)
  have 7: "onRFIDEnter (setRfidBuffer (0xFEFF # ascii ''000000001'' @ [0x0D, 0x0A]) initialKiosk)
     = initialKiosk\<lparr>state := Authenticated (ascii ''op-1'') (ascii ''Ahmet'')\<rparr>"
    using onRFIDEnter_empty_code_ignored
      [where c = "setRfidBuffer (0xFEFF # ascii ''000000001'' @ [0x0D, 0x0A]) initialKiosk"]
    by (simp add: setRfidBuffer_def trims lookups cards_nonempty initialKiosk_def)
  from 1 2 3 4 5 6 7 show ?thesis
    by (simp add: setRfidBuffer_def trims)
qed

subsection \<open>Authentication and the phase\<close>

text \<open>Neither path of authentication (\<open>onRFIDEnter\<close> for the keyboard,
  \<open>loginWithCode\<close> for a decoded barcode) looks at the phase: the session state
  after it depends on the code alone.\<close>

lemma authenticate_ignores_phase:
  "state (onRFIDEnter c) =
     (case demoLookupOperator (rfidBuffer c) of
        None \<Rightarrow> state c
      | Some p \<Rightarrow> Authenticated (id_op p) (name_op p)) \<and>
   state (loginWithCode code c) =
     (case demoLookupOperator code of
        None \<Rightarrow> state c
      | Some p \<Rightarrow> Authenticated (id_op p) (name_op p)) \<and>
   (demoLookupOperator code = None \<longleftrightarrow> trim code = []) \<and>
   (trim (rfidBuffer c) \<noteq> [] \<longrightarrow> (\<exists>oi on. state (onRFIDEnter c) = Authenticated oi on)) \<and>
   (trim code \<noteq> [] \<longrightarrow> (\<exists>oi on. state (loginWithCode code c) = Authenticated oi on)) \<and>
   (trim (rfidBuffer c) = [] \<longrightarrow> state (onRFIDEnter c) = state c) \<and>
   (trim code = [] \<longrightarrow> state (loginWithCode code c) = state c)"
proof -
  have 1: "state (onRFIDEnter c) =
     (case demoLookupOperator (rfidBuffer c) of
        None \<Rightarrow> state c
      | Some p \<Rightarrow> Authenticated (id_op p) (name_op p))"
    by (simp add: onRFIDEnter_def Let_def split: option.splits)
  have 2: "state (loginWithCode code c) =
     (case demoLookupOperator code of
        None \<Rightarrow> state c
      | Some p \<Rightarrow> Authenticated (id_op p) (name_op p))"
    by (simp add: loginWithCode_def Let_def split: option.splits)
  have 3: "demoLookupOperator code = None \<longleftrightarrow> trim code = []"
    by (rule demoLookupOperator_None)
  have 4: "trim (rfidBuffer c) \<noteq> [] \<longrightarrow> (\<exists>oi on. state (onRFIDEnter c) = Authenticated oi on)"
    using demoLookupOperator_None [of "rfidBuffer c"]
    by (cases "demoLookupOperator (rfidBuffer c)") (simp_all add: 1)
  have 5: "trim code \<noteq> [] \<longrightarrow> (\<exists>oi on. state (loginWithCode code c) = Authenticated oi on)"
    using 3 by (cases "demoLookupOperator code") (simp_all add: 2)
  have 6: "trim (rfidBuffer c) = [] \<longrightarrow> state (onRFIDEnter c) = state c"
    using demoLookupOperator_None [of "rfidBuffer c"] by (auto simp: 1)
  have 7: "trim code = [] \<longrightarrow> state (loginWithCode code c) = state c"
    using 3 by (auto simp: 2)
  from 1 2 3 4 5 6 7 show ?thesis by blast
qed

text \<open>
  Claim C2. The claim says that authentication is legal only in the phase \<open>Idle\<close>
  and that in any other phase it is ignored, the session staying as it is. In the
  running example (operator \<open>op-1\<close>, one piece produced) the card \<open>000000002\<close> is
  read by the keyboard input, which is mounted in every phase: the session is
  \<open>Authenticated\<close> with the operator \<open>op-2\<close> afterwards, and the running session is
  lost. The same happens to the paused example when a barcode is decoded, and to the
  authenticated one.
\<close>

theorem onRFIDEnter_while_running_replaces_session:
  "state (exec [Type (ascii ''000000002'')] runningExample)
     = Running (ascii ''op-1'') (ascii ''Ahmet'') wo1001 0 1 \<and>
   state (exec [Type (ascii ''000000002''), Enter] runningExample)
     = Authenticated (ascii ''op-2'') (ascii ''Lider'') \<and>
   state pausedExample = Paused (ascii ''op-1'') (ascii ''Ahmet'') wo1001 0 1 Fault 2500 \<and>
   state (loginWithCode (ascii ''000000002'') pausedExample)
     = Authenticated (ascii ''op-2'') (ascii ''Lider'') \<and>
   state authenticatedExample = Authenticated (ascii ''op-1'') (ascii ''Ahmet'') \<and>
   state (exec [Type (ascii ''000000002''), Enter] authenticatedExample)
     = Authenticated (ascii ''op-2'') (ascii ''Lider'')"
  by (simp add: runningExample_eq pausedExample_eq authenticatedExample_eq setRfidBuffer_def
      onRFIDEnter_def loginWithCode_def lookups)

subsection \<open>Finishing the work\<close>

lemma rates:
  "js_round (pph (runningInfo (Running a b w 0 1) 2900)) = Number 1241"
  "js_round (pph (runningInfo (Running a b w 0 1) 2000)) = Number 1800"
  "js_round (Number 1800) = Number 1800"
  by (simp_all add: js_div_def Let_def)

lemma example_cells:
  "state runningExample = Running (ascii ''op-1'') (ascii ''Ahmet'') wo1001 0 1"
  "runningInfoMemo runningExample = \<lparr>elapsed = 2000, pph = Number 1800\<rparr>"
  by (simp_all add: runningExample_eq)

text \<open>
  Claim C5. The claim says that the rate of the summary is derived from the same end
  time as its duration: the clock that \<open>finishWork\<close> reads, when the session is
  \<open>Running\<close>. The running example (started at 0, one piece, last rendered at 2000) is
  finished at 2900: the summary shows the duration up to 2900 and the rate 1800, which
  is the rate memoised at the render of 2000; the rate of one piece in 2900 ms is
  1241. \<open>finishWork\<close> computes \<open>elapsedMs\<close> from its own clock and takes the rate from
  \<open>runningInfo\<close>, which the last render computed.
\<close>

theorem finishWork_rate_is_the_memoised_one:
  "state runningExample = Running (ascii ''op-1'') (ascii ''Ahmet'') wo1001 0 1 \<and>
   fst (finishWork 2900 runningExample) =
     Some \<lparr>sum_operator = ascii ''Ahmet'', sum_wo = ascii ''WO-1001'', sum_produced = 1,
           sum_sure = ascii ''00:00:02'', sum_pph = Number 1800\<rparr> \<and>
   js_round (pph (runningInfo (state runningExample) 2900)) = Number 1241 \<and>
   js_round (pph (runningInfo (state runningExample) 2000)) = Number 1800"
proof -
  have 1: "js_round (pph (runningInfo (state runningExample) 2900)) = Number 1241"
    unfolding example_cells(1) by (rule rates(1))
  have 2: "js_round (pph (runningInfo (state runningExample) 2000)) = Number 1800"
    unfolding example_cells(1) by (rule rates(2))
  have 3: "fst (finishWork 2900 runningExample) =
     Some \<lparr>sum_operator = ascii ''Ahmet'', sum_wo = ascii ''WO-1001'', sum_produced = 1,
           sum_sure = ascii ''00:00:02'', sum_pph = Number 1800\<rparr>"
    by (simp add: finishWork_running [OF example_cells(1)] example_cells(2) wo1001_wo
        formatHMS_examples)
  from 1 2 3 example_cells(1) show ?thesis by blast
qed

subsection \<open>Runs of the scanner\<close>

lemma exec_append: "exec (es @ fs) c = exec fs (exec es c)"
  by (induction es arbitrary: c) simp_all

lemma openedTwice_eq:
  "exec openedTwice initialKiosk =
     \<lparr>rfidBuffer = [], selectedWO = None, state = Idle,
      tick = 0, scanOpen = True, scanError = None, streamRef = Some 1, rafRef = Some 1,
      runningInfoMemo = \<lparr>elapsed = 0, pph = Number 0\<rparr>,
      streams = [True, True], frames = [True, True],
      pendingGetUserMedia = 0, pendingPlay = 0, pendingDetect = 0\<rparr>"
  by (simp add: openedTwice_def kiosk_defs Let_def)

lemma closedBeforeAnswer_eq:
  "exec [OpenScanner True, StopScanner, GotUserMedia None] initialKiosk =
     \<lparr>rfidBuffer = [], selectedWO = None, state = Idle,
      tick = 0, scanOpen = False,
      scanError = Some (ascii ''Video elementi bulunamad'' @ [0x131] @ ascii ''.''),
      streamRef = Some 0, rafRef = None,
      runningInfoMemo = \<lparr>elapsed = 0, pph = Number 0\<rparr>,
      streams = [True], frames = [],
      pendingGetUserMedia = 0, pendingPlay = 0, pendingDetect = 0\<rparr>"
  by (simp add: kiosk_defs Let_def)

lemma closedWhileAsking_eq:
  "exec closedWhileAsking initialKiosk =
     \<lparr>rfidBuffer = [], selectedWO = None, state = Idle,
      tick = 0, scanOpen = True, scanError = None, streamRef = Some 1, rafRef = Some 0,
      runningInfoMemo = \<lparr>elapsed = 0, pph = Number 0\<rparr>,
      streams = [True, True], frames = [True],
      pendingGetUserMedia = 0, pendingPlay = 0, pendingDetect = 0\<rparr>"
proof -
  have "exec closedWhileAsking initialKiosk =
      exec [OpenScanner True, GotUserMedia None, Played None True]
        (exec [OpenScanner True, StopScanner, GotUserMedia None] initialKiosk)"
    by (simp add: closedWhileAsking_def)
  then show ?thesis
    unfolding closedBeforeAnswer_eq
    by (simp add: openScanner_begin_def openScanner_gotStream_def openScanner_played_def
        requestAnimationFrame_def Let_def)
qed

lemma scannedAfterRetry_eq:
  "exec scannedAfterRetry initialKiosk =
     \<lparr>rfidBuffer = [], selectedWO = None,
      state = Authenticated (ascii ''op-2'') (ascii ''Lider''),
      tick = 0, scanOpen = False, scanError = None, streamRef = None, rafRef = None,
      runningInfoMemo = \<lparr>elapsed = 0, pph = Number 0\<rparr>,
      streams = [True, False], frames = [False],
      pendingGetUserMedia = 0, pendingPlay = 0, pendingDetect = 0\<rparr>"
  by (simp add: scannedAfterRetry_def exec_append closedWhileAsking_eq onFrame_def loop_def
      trims loginWithCode_def lookups cards_nonempty stopScanner_def cancelAnimationFrame_def
      stopTracks_def Let_def)

lemma detecting_eq:
  "exec detecting initialKiosk =
     \<lparr>rfidBuffer = [], selectedWO = None, state = Idle,
      tick = 0, scanOpen = True, scanError = None, streamRef = Some 0, rafRef = Some 0,
      runningInfoMemo = \<lparr>elapsed = 0, pph = Number 0\<rparr>, streams = [True], frames = [False],
      pendingGetUserMedia = 0, pendingPlay = 0, pendingDetect = 1\<rparr>"
proof -
  have "exec detecting initialKiosk = exec [Frame 0] scanningExample"
    by (simp add: detecting_def scanningExample_def)
  then show ?thesis
    by (simp add: scanningExample_eq onFrame_def)
qed

lemma detecting_reset_eq:
  "exec (detecting @ [Reset]) initialKiosk =
     \<lparr>rfidBuffer = [], selectedWO = None, state = Idle,
      tick = 0, scanOpen = False, scanError = None, streamRef = None, rafRef = None,
      runningInfoMemo = \<lparr>elapsed = 0, pph = Number 0\<rparr>, streams = [False], frames = [False],
      pendingGetUserMedia = 0, pendingPlay = 0, pendingDetect = 1\<rparr>"
  by (simp add: exec_append detecting_eq resetToIdle_def stopScanner_def
      cancelAnimationFrame_def stopTracks_def Let_def)

subsection \<open>The camera after a failed open\<close>

text \<open>
  Claim C3. The claim says that the camera is never left open after any exit of a
  capture, a failed open included. On a browser that has a camera but no
  \<open>BarcodeDetector\<close>, \<open>openScanner\<close> on the component as mounted acquires the stream,
  fails, records the error, and ends with the stream's tracks live and no frame
  scheduled: the \<open>catch\<close> does not stop the scanner.
\<close>

theorem failed_open_leaves_camera_on:
  "openStreams initialKiosk = 0 \<and>
   openStreams (openScanner scannerNoDetector initialKiosk) = 1 \<and>
   streams (openScanner scannerNoDetector initialKiosk) = [True] \<and>
   streamRef (openScanner scannerNoDetector initialKiosk) = Some 0 \<and>
   rafRef (openScanner scannerNoDetector initialKiosk) = None \<and>
   pendingFrames (openScanner scannerNoDetector initialKiosk) = 0 \<and>
   scanOpen (openScanner scannerNoDetector initialKiosk) = True \<and>
   scanError (openScanner scannerNoDetector initialKiosk) \<noteq> None \<and>
   state (openScanner scannerNoDetector initialKiosk) = Idle"
  by (simp add: kiosk_defs scannerNoDetector_def Let_def)

text \<open>The same \<open>catch\<close> is reached when the modal is closed (\<open>stopScanner\<close>) while
  \<open>getUserMedia\<close> is pending: the stream arrives, no \<open>video\<close> element is mounted, and
  the stream stays live with the modal closed. A successful decode, in contrast,
  stops the scanner before the code is used.\<close>

lemma cancel_during_getUserMedia_leaves_camera_on:
  "openStreams (exec [OpenScanner True, StopScanner, GotUserMedia None] initialKiosk) = 1 \<and>
   scanOpen (exec [OpenScanner True, StopScanner, GotUserMedia None] initialKiosk) = False"
  unfolding closedBeforeAnswer_eq by (simp add: openStreams_def)

lemma scan_success_example:
  "exec [Frame 0, Detected (Barcodes [Some (ascii '' 000000002 '')])] scanningExample
     = (stopScanner (scanningExample\<lparr>frames := [False]\<rparr>))
         \<lparr>state := Authenticated (ascii ''op-2'') (ascii ''Lider'')\<rparr>"
  "openStreams (exec [Frame 0, Detected (Barcodes [Some (ascii '' 000000002 '')])]
     scanningExample) = 0"
  "pendingFrames (exec [Frame 0, Detected (Barcodes [Some (ascii '' 000000002 '')])]
     scanningExample) = 0"
  by (simp_all add: loop_def onFrame_def trims loginWithCode_def lookups cards_nonempty
      scanningExample_eq stopScanner_def cancelAnimationFrame_def stopTracks_def
      openStreams_def pendingFrames_def Let_def)

subsection \<open>One camera stream at a time\<close>

text \<open>
  Claim C4. The claim says that at most one camera stream is open at any time, and
  that a capture started while one is active does nothing or replaces the former one,
  after stopping its tracks. \<open>openScanner\<close> neither tests for a stream that is held
  nor stops one. Called twice in a row on the component as mounted (the modal does
  not keep the keyboard from its controls), it leaves two streams live, and
  \<open>streamRef\<close> holds the second. The same comes from pointer input alone: the modal
  is closed before the camera answers; the stream arrives and stays live behind the
  closed modal; the scanner is opened again, and two streams are live. When that
  scan then succeeds, the stream it held is stopped, and the first one stays live,
  held by nothing.
\<close>

theorem reopen_doubles_streams:
  "openStreams (exec openedTwice initialKiosk) = 2 \<and>
   streams (exec openedTwice initialKiosk) = [True, True] \<and>
   streamRef (exec openedTwice initialKiosk) = Some 1 \<and>
   scanOpen (exec [OpenScanner True, StopScanner, GotUserMedia None] initialKiosk) = False \<and>
   openStreams (exec closedWhileAsking initialKiosk) = 2 \<and>
   streamRef (exec closedWhileAsking initialKiosk) = Some 1 \<and>
   openStreams (exec scannedAfterRetry initialKiosk) = 1 \<and>
   streams (exec scannedAfterRetry initialKiosk) = [True, False] \<and>
   streamRef (exec scannedAfterRetry initialKiosk) = None"
  unfolding openedTwice_eq closedBeforeAnswer_eq closedWhileAsking_eq scannedAfterRetry_eq
  by (simp add: openStreams_def)

subsection \<open>Reset\<close>

lemma resetToIdle_fields:
  "state (resetToIdle c) = Idle" "selectedWO (resetToIdle c) = None"
  "rfidBuffer (resetToIdle c) = []" "scanOpen (resetToIdle c) = False"
  "streamRef (resetToIdle c) = None" "rafRef (resetToIdle c) = None"
  by (simp_all add: resetToIdle_def stopScanner_def cancelAnimationFrame_def stopTracks_def
      Let_def split: option.splits)

text \<open>
  Claim C7. The claim says that \<open>resetToIdle\<close>, in any phase, gives \<open>Idle\<close> with no
  residue and terminates any open resource of the scanner: the sampling is cancelled
  and the camera tracks are stopped. The first part holds (\<open>resetToIdle_fields\<close>).
  But \<open>stopScanner\<close> releases only the stream of \<open>streamRef\<close> and the frame of
  \<open>rafRef\<close>. After the scanner was opened twice, a reset leaves the first stream live
  and the first frame scheduled. After the run in which the modal was closed before
  the camera answered and the retry scanned a card, a reset (the logout of that
  operator) leaves the first stream live. And when \<open>detect\<close> has not answered yet at
  the reset, the rest of \<open>loop\<close> runs after it: with no barcode it schedules the next
  frame, so that the sampling goes on; with a card it authenticates the operator, so
  that the session is not \<open>Idle\<close>.
\<close>

theorem reset_leaves_scanner_resources:
  "state (exec (openedTwice @ [Reset]) initialKiosk) = Idle \<and>
   streamRef (exec (openedTwice @ [Reset]) initialKiosk) = None \<and>
   rafRef (exec (openedTwice @ [Reset]) initialKiosk) = None \<and>
   streams (exec (openedTwice @ [Reset]) initialKiosk) = [True, False] \<and>
   frames (exec (openedTwice @ [Reset]) initialKiosk) = [True, False] \<and>
   openStreams (exec (openedTwice @ [Reset]) initialKiosk) = 1 \<and>
   pendingFrames (exec (openedTwice @ [Reset]) initialKiosk) = 1 \<and>
   state (exec scannedAfterRetry initialKiosk)
     = Authenticated (ascii ''op-2'') (ascii ''Lider'') \<and>
   state (exec (scannedAfterRetry @ [Reset]) initialKiosk) = Idle \<and>
   openStreams (exec (scannedAfterRetry @ [Reset]) initialKiosk) = 1 \<and>
   pendingFrames (exec (detecting @ [Reset]) initialKiosk) = 0 \<and>
   pendingFrames (exec (detecting @ [Reset, Detected (Barcodes [])]) initialKiosk) = 1 \<and>
   rafRef (exec (detecting @ [Reset, Detected (Barcodes [])]) initialKiosk) = Some 1 \<and>
   state (exec (detecting @ [Reset, Detected (Barcodes [Some (ascii ''000000002'')])])
      initialKiosk) = Authenticated (ascii ''op-2'') (ascii ''Lider'')"
proof -
  have a: "exec (openedTwice @ [Reset]) initialKiosk =
     \<lparr>rfidBuffer = [], selectedWO = None, state = Idle,
      tick = 0, scanOpen = False, scanError = None, streamRef = None, rafRef = None,
      runningInfoMemo = \<lparr>elapsed = 0, pph = Number 0\<rparr>,
      streams = [True, False], frames = [True, False],
      pendingGetUserMedia = 0, pendingPlay = 0, pendingDetect = 0\<rparr>"
    by (simp add: exec_append openedTwice_eq resetToIdle_def stopScanner_def
        cancelAnimationFrame_def stopTracks_def Let_def)
  have b: "exec (scannedAfterRetry @ [Reset]) initialKiosk =
     \<lparr>rfidBuffer = [], selectedWO = None, state = Idle,
      tick = 0, scanOpen = False, scanError = None, streamRef = None, rafRef = None,
      runningInfoMemo = \<lparr>elapsed = 0, pph = Number 0\<rparr>,
      streams = [True, False], frames = [False],
      pendingGetUserMedia = 0, pendingPlay = 0, pendingDetect = 0\<rparr>"
    by (simp add: exec_append scannedAfterRetry_eq resetToIdle_def stopScanner_def Let_def)
  have c: "exec (detecting @ [Reset, Detected (Barcodes [])]) initialKiosk =
     \<lparr>rfidBuffer = [], selectedWO = None, state = Idle,
      tick = 0, scanOpen = False, scanError = None, streamRef = None, rafRef = Some 1,
      runningInfoMemo = \<lparr>elapsed = 0, pph = Number 0\<rparr>,
      streams = [False], frames = [False, True],
      pendingGetUserMedia = 0, pendingPlay = 0, pendingDetect = 0\<rparr>"
  proof -
    have "exec (detecting @ [Reset, Detected (Barcodes [])]) initialKiosk
        = exec [Detected (Barcodes [])] (exec (detecting @ [Reset]) initialKiosk)"
      by (simp add: exec_append)
    then show ?thesis
      unfolding detecting_reset_eq
      by (simp add: loop_def requestAnimationFrame_def Let_def)
  qed
  have d: "state (exec (detecting @ [Reset, Detected (Barcodes [Some (ascii ''000000002'')])])
      initialKiosk) = Authenticated (ascii ''op-2'') (ascii ''Lider'')"
  proof -
    have "exec (detecting @ [Reset, Detected (Barcodes [Some (ascii ''000000002'')])])
        initialKiosk
        = exec [Detected (Barcodes [Some (ascii ''000000002'')])]
            (exec (detecting @ [Reset]) initialKiosk)"
      by (simp add: exec_append)
    then show ?thesis
      unfolding detecting_reset_eq
      by (simp add: loop_def trims cards_nonempty loginWithCode_def lookups stopScanner_def
          Let_def)
  qed
  show ?thesis
    unfolding a b c detecting_reset_eq scannedAfterRetry_eq
    using d by (simp add: openStreams_def pendingFrames_def)
qed

end
